theory Spec2Isabelle
  imports Main "HOL-Library.Word"
begin

section \<open>Bytes, exceptions and the integer fields of the wire format\<close>

type_synonym byte = "8 word"
type_synonym bytes = "byte list"

text \<open>
  The Python exceptions that the modelled code raises itself or lets pass through. All of
  them are subclasses of \<open>Exception\<close>, so the handler \<open>except Exception\<close> of
  \<open>receive_files\<close> catches every one of them. \<open>OSError n\<close> is an \<open>OSError\<close>
  of no subclass listed here, with its \<open>errno\<close> (36 is \<open>ENAMETOOLONG\<close>, 13 is
  \<open>EACCES\<close>).
\<close>

datatype exn =
    ConnectionError
  | FileNotFoundError
  | FileExistsError
  | IsADirectoryError
  | NotADirectoryError
  | StructError
  | UnicodeEncodeError
  | UnicodeDecodeError
  | CalledProcessError
  | SSLError
  | ValueError
  | OSError nat

text \<open>
  \<open>struct.pack('!B' / '!I' / '!Q', n)\<close>: the unsigned big-endian encoding of \<open>n\<close> in
  1, 4 or 8 bytes; \<open>struct.error\<close> when \<open>n\<close> does not fit. \<open>struct.unpack\<close> is the
  inverse and raises \<open>struct.error\<close> on a buffer of the wrong length.
\<close>

fun be_bytes :: "nat \<Rightarrow> nat \<Rightarrow> bytes" where
  "be_bytes 0 n = []"
| "be_bytes (Suc k) n = be_bytes k (n div 256) @ [of_nat (n mod 256)]"

definition be_nat :: "bytes \<Rightarrow> nat" where
  "be_nat bs = foldl (\<lambda>a b. a * 256 + unat b) 0 bs"

definition struct_pack :: "nat \<Rightarrow> nat \<Rightarrow> exn + bytes" where
  "struct_pack k n = (if n < 256 ^ k then Inr (be_bytes k n) else Inl StructError)"

definition struct_unpack :: "nat \<Rightarrow> bytes \<Rightarrow> exn + nat" where
  "struct_unpack k bs = (if length bs = k then Inr (be_nat bs) else Inl StructError)"

abbreviation pack_B :: "nat \<Rightarrow> exn + bytes" where "pack_B \<equiv> struct_pack 1"
abbreviation pack_I :: "nat \<Rightarrow> exn + bytes" where "pack_I \<equiv> struct_pack 4"
abbreviation pack_Q :: "nat \<Rightarrow> exn + bytes" where "pack_Q \<equiv> struct_pack 8"
abbreviation unpack_B :: "bytes \<Rightarrow> exn + nat" where "unpack_B \<equiv> struct_unpack 1"
abbreviation unpack_I :: "bytes \<Rightarrow> exn + nat" where "unpack_I \<equiv> struct_unpack 4"
abbreviation unpack_Q :: "bytes \<Rightarrow> exn + nat" where "unpack_Q \<equiv> struct_unpack 8"

section \<open>The receiving side of a connection\<close>

text \<open>
  What the peer and the transport do on one connection, seen from the receiver: a sequence
  of events, each either a segment of bytes that arrives or a fault that the next
  \<open>recv\<close> raises; after the last event the peer has closed the stream. The segments
  are arbitrary: TLS delivers an ordered byte stream, not the sender's \<open>sendall\<close> calls.
\<close>

datatype event = Data bytes | Fault exn

type_synonym conn = "event list"

text \<open>
  \<open>conn.recv(k)\<close>: at most \<open>k\<close> bytes of what has arrived, at least one byte while
  the stream is open, and \<open>b''\<close> once the peer has closed it.
\<close>

fun recv :: "conn \<Rightarrow> nat \<Rightarrow> (exn + bytes) \<times> conn" where
  "recv [] k = (Inr [], [])"
| "recv (Fault e # es) k = (Inl e, es)"
| "recv (Data d # es) k =
     (if d = [] then recv es k
      else if length d \<le> k then (Inr d, es)
      else (Inr (take k d), Data (drop k d) # es))"

text \<open>
  \<open>_recv_all(conn, length)\<close>: the loop \<open>while len(data) < length\<close>, with \<open>data\<close>
  the bytes collected so far.
\<close>

function recv_all_loop :: "conn \<Rightarrow> nat \<Rightarrow> bytes \<Rightarrow> (exn + bytes) \<times> conn" where
  "recv_all_loop c len data =
     (if length data < len then
        (case recv c (len - length data) of
           (Inl e, c') \<Rightarrow> (Inl e, c')
         | (Inr chunk, c') \<Rightarrow>
             if chunk = [] then (Inl ConnectionError, c')
             else recv_all_loop c' len (data @ chunk))
      else (Inr data, c))"
  by pat_completeness auto
termination
proof (relation "measure (\<lambda>(c, len, data). len - length data)")
  show "wf (measure (\<lambda>(c, len, data). len - length data))"
    by simp
next
  fix c :: conn and len :: nat and data chunk :: bytes and x :: "(exn + bytes) \<times> conn"
    and r :: "exn + bytes" and c' :: conn
  assume "length data < len" and "chunk \<noteq> []"
  then show "((c', len, data @ chunk), (c, len, data))
      \<in> measure (\<lambda>(c, len, data). len - length data)"
    by (cases chunk) auto
qed

definition recv_all :: "conn \<Rightarrow> nat \<Rightarrow> (exn + bytes) \<times> conn" where
  "recv_all c len = recv_all_loop c len []"

text \<open>
  Two views of a connection, used to state what arrives on it: whether no \<open>recv\<close>
  on it raises, and the bytes that are still to arrive before the peer closes.
\<close>

fun faultless :: "conn \<Rightarrow> bool" where
  "faultless [] = True"
| "faultless (Data d # es) = faultless es"
| "faultless (Fault e # es) = False"

fun pending :: "conn \<Rightarrow> bytes" where
  "pending [] = []"
| "pending (Data d # es) = d @ pending es"
| "pending (Fault e # es) = pending es"

section \<open>Python strings and the UTF-8 codec\<close>

text \<open>
  A Python \<open>str\<close> is a sequence of code points. \<open>str.encode('utf-8')\<close> raises
  \<open>UnicodeEncodeError\<close> on a surrogate (which is how a file name that is not valid
  UTF-8 shows up in a \<open>str\<close>); values from \<open>0x110000\<close> on are not code points.
\<close>

type_synonym pystr = "nat list"

definition ascii :: "string \<Rightarrow> pystr" where
  "ascii s = map of_char s"

definition utf8_encode_cp :: "nat \<Rightarrow> exn + bytes" where
  "utf8_encode_cp c =
     (if c < 0x80 then Inr [of_nat c]
      else if c < 0x800 then Inr [of_nat (0xC0 + c div 64), of_nat (0x80 + c mod 64)]
      else if 0xD800 \<le> c \<and> c < 0xE000 then Inl UnicodeEncodeError
      else if c < 0x10000 then
        Inr [of_nat (0xE0 + c div 4096), of_nat (0x80 + c div 64 mod 64),
             of_nat (0x80 + c mod 64)]
      else if c < 0x110000 then
        Inr [of_nat (0xF0 + c div 262144), of_nat (0x80 + c div 4096 mod 64),
             of_nat (0x80 + c div 64 mod 64), of_nat (0x80 + c mod 64)]
      else Inl UnicodeEncodeError)"

fun utf8_encode :: "pystr \<Rightarrow> exn + bytes" where
  "utf8_encode [] = Inr []"
| "utf8_encode (c # cs) =
     (case utf8_encode_cp c of
        Inl e \<Rightarrow> Inl e
      | Inr b \<Rightarrow> (case utf8_encode cs of Inl e \<Rightarrow> Inl e | Inr bs \<Rightarrow> Inr (b @ bs)))"

definition is_cont :: "byte \<Rightarrow> bool" where
  "is_cont b = (0x80 \<le> unat b \<and> unat b < 0xC0)"

text \<open>
  The UTF-8 decoder of CPython, one result per decoded code point or per error:
  \<open>None\<close> stands for an error, which covers the longest prefix of the input that starts a
  well-formed sequence (an invalid start byte alone; a lead byte with the continuation
  bytes that were right; all that is left when the input ends inside a sequence), after
  which decoding goes on behind it.
\<close>

fun utf8_scan :: "bytes \<Rightarrow> nat option list" where
  "utf8_scan [] = []"
| "utf8_scan (b # bs) =
     (let ch = unat b in
      if ch < 0x80 then Some ch # utf8_scan bs
      else if ch < 0xC2 then None # utf8_scan bs
      else if ch < 0xE0 then
        (case bs of
           [] \<Rightarrow> [None]
         | b2 # r2 \<Rightarrow>
             if is_cont b2 then Some ((ch - 0xC0) * 64 + (unat b2 - 0x80)) # utf8_scan r2
             else None # utf8_scan bs)
      else if ch < 0xF0 then
        (case bs of
           [] \<Rightarrow> [None]
         | b2 # r2 \<Rightarrow>
             if \<not> is_cont b2 \<or> (if unat b2 < 0xA0 then ch = 0xE0 else ch = 0xED)
             then None # utf8_scan bs
             else
               (case r2 of
                  [] \<Rightarrow> [None]
                | b3 # r3 \<Rightarrow>
                    if is_cont b3 then
                      Some ((ch - 0xE0) * 4096 + (unat b2 - 0x80) * 64 + (unat b3 - 0x80))
                        # utf8_scan r3
                    else None # utf8_scan r2))
      else if ch < 0xF5 then
        (case bs of
           [] \<Rightarrow> [None]
         | b2 # r2 \<Rightarrow>
             if \<not> is_cont b2 \<or> (if unat b2 < 0x90 then ch = 0xF0 else ch = 0xF4)
             then None # utf8_scan bs
             else
               (case r2 of
                  [] \<Rightarrow> [None]
                | b3 # r3 \<Rightarrow>
                    if \<not> is_cont b3 then None # utf8_scan r2
                    else
                      (case r3 of
                         [] \<Rightarrow> [None]
                       | b4 # r4 \<Rightarrow>
                           if is_cont b4 then
                             Some ((ch - 0xF0) * 262144 + (unat b2 - 0x80) * 4096
                                   + (unat b3 - 0x80) * 64 + (unat b4 - 0x80))
                               # utf8_scan r4
                           else None # utf8_scan r3)))
      else None # utf8_scan bs)"

text \<open>\<open>bytes.decode('utf-8', errors='replace')\<close>: U+FFFD for every error.\<close>

definition utf8_decode_replace :: "bytes \<Rightarrow> pystr" where
  "utf8_decode_replace bs = map (\<lambda>r. case r of None \<Rightarrow> 0xFFFD | Some c \<Rightarrow> c) (utf8_scan bs)"

text \<open>\<open>bytes.decode()\<close>: strict, \<open>UnicodeDecodeError\<close> at the first error.\<close>

definition utf8_decode_strict :: "bytes \<Rightarrow> exn + pystr" where
  "utf8_decode_strict bs =
     (if None \<in> set (utf8_scan bs) then Inl UnicodeDecodeError
      else Inr (utf8_decode_replace bs))"

text \<open>\<open>pat in s\<close> on strings.\<close>

fun contains :: "pystr \<Rightarrow> pystr \<Rightarrow> bool" where
  "contains pat [] = (pat = [])"
| "contains pat (x # xs) = (take (length pat) (x # xs) = pat \<or> contains pat xs)"

section \<open>Paths and the file system\<close>

text \<open>
  A \<open>pathlib\<close> path: whether it is anchored at the root, and its parts. Parsing a
  string splits it at \<open>/\<close> and drops the empty parts and the parts \<open>.\<close>;
  \<open>..\<close> is kept as a part.
\<close>

datatype path = Path (anchored: bool) (parts: "pystr list")

fun split_slash :: "pystr \<Rightarrow> pystr list" where
  "split_slash [] = [[]]"
| "split_slash (c # cs) =
     (if c = 47 then [] # split_slash cs
      else (case split_slash cs of [] \<Rightarrow> [[c]] | p # ps \<Rightarrow> (c # p) # ps))"

definition parse_parts :: "pystr \<Rightarrow> pystr list" where
  "parse_parts s = filter (\<lambda>p. p \<noteq> [] \<and> p \<noteq> [46]) (split_slash s)"

text \<open>\<open>base / s\<close>: an absolute \<open>s\<close> replaces \<open>base\<close>.\<close>

definition joinpath :: "path \<Rightarrow> pystr \<Rightarrow> path" where
  "joinpath base s =
     (case s of
        [] \<Rightarrow> base
      | c # cs \<Rightarrow>
          if c = 47 then Path True (parse_parts s)
          else Path (anchored base) (parts base @ parse_parts s))"

definition parent :: "path \<Rightarrow> path" where
  "parent p = Path (anchored p) (butlast (parts p))"

definition name :: "path \<Rightarrow> pystr" where
  "name p = (case rev (parts p) of [] \<Rightarrow> [] | n # ns \<Rightarrow> n)"

text \<open>
  The file system: the directories that exist, the content of the regular files, and the
  paths at which the operating system refuses every access with an error of its own (a name
  that is too long, a directory that may not be searched), with that error. The path
  without parts (the root, or the working directory) is always a directory.
\<close>

record fs =
  dirs :: "path set"
  files :: "path \<rightharpoonup> bytes"
  faults :: "path \<rightharpoonup> exn"

definition is_dir :: "fs \<Rightarrow> path \<Rightarrow> bool" where
  "is_dir s p = (parts p = [] \<or> p \<in> dirs s)"

definition is_regular :: "fs \<Rightarrow> path \<Rightarrow> bool" where
  "is_regular s p = (case files s p of None \<Rightarrow> False | Some content \<Rightarrow> True)"

text \<open>
  A path with a NUL character in it never reaches the operating system: Python raises
  \<open>ValueError\<close> (embedded null byte) when it is used.
\<close>

definition has_nul :: "path \<Rightarrow> bool" where
  "has_nul p = list_ex (\<lambda>part. 0 \<in> set part) (parts p)"

text \<open>
  \<open>Path.is_file()\<close>: whether \<open>stat\<close> finds a regular file. It answers
  \<open>False\<close> on \<open>ValueError\<close> and on the errors \<open>ENOENT\<close>, \<open>ENOTDIR\<close>,
  \<open>EBADF\<close> (9) and \<open>ELOOP\<close> (40), and lets every other \<open>OSError\<close> of
  \<open>stat\<close> pass.
\<close>

definition ignore_error :: "exn \<Rightarrow> bool" where
  "ignore_error e =
     (e = FileNotFoundError \<or> e = NotADirectoryError \<or> e = OSError 9 \<or> e = OSError 40)"

definition is_file :: "fs \<Rightarrow> path \<Rightarrow> exn + bool" where
  "is_file s p =
     (if has_nul p then Inr False
      else (case faults s p of
              Some e \<Rightarrow> if ignore_error e then Inr False else Inl e
            | None \<Rightarrow> Inr (is_regular s p)))"

text \<open>
  Walking down the parts \<open>xs\<close> below the directory \<open>Path a pre\<close>, as the kernel
  resolves a path: the error of the first part that is not a directory, if any.
\<close>

fun resolve_dir :: "fs \<Rightarrow> bool \<Rightarrow> pystr list \<Rightarrow> pystr list \<Rightarrow> exn option" where
  "resolve_dir s a pre [] = None"
| "resolve_dir s a pre (x # xs) =
     (case faults s (Path a (pre @ [x])) of
        Some e \<Rightarrow> Some e
      | None \<Rightarrow>
          if Path a (pre @ [x]) \<in> dirs s then resolve_dir s a (pre @ [x]) xs
          else if is_regular s (Path a (pre @ [x])) then Some NotADirectoryError
          else Some FileNotFoundError)"

text \<open>
  \<open>p.mkdir(parents=True, exist_ok=True)\<close>: every missing directory on the way to
  \<open>p\<close> and \<open>p\<close> itself are created; a regular file in the way is an error.
\<close>

fun mkdir_walk :: "fs \<Rightarrow> bool \<Rightarrow> pystr list \<Rightarrow> pystr list \<Rightarrow> exn + fs" where
  "mkdir_walk s a pre [] = Inr s"
| "mkdir_walk s a pre (x # xs) =
     (case faults s (Path a (pre @ [x])) of
        Some e \<Rightarrow> Inl e
      | None \<Rightarrow>
          if Path a (pre @ [x]) \<in> dirs s then mkdir_walk s a (pre @ [x]) xs
          else if is_regular s (Path a (pre @ [x])) then
            Inl (if xs = [] then FileExistsError else NotADirectoryError)
          else
            mkdir_walk (s\<lparr>dirs := insert (Path a (pre @ [x])) (dirs s)\<rparr>) a (pre @ [x]) xs)"

definition mkdir_parents :: "fs \<Rightarrow> path \<Rightarrow> exn + fs" where
  "mkdir_parents s p =
     (if has_nul p then Inl ValueError else mkdir_walk s (anchored p) [] (parts p))"

text \<open>
  \<open>open(p, 'wb')\<close>: the directory of \<open>p\<close> must exist and \<open>p\<close> must not be a
  directory; the file is created, or emptied when it exists.
\<close>

definition open_wb :: "fs \<Rightarrow> path \<Rightarrow> exn + fs" where
  "open_wb s p =
     (if has_nul p then Inl ValueError
      else if parts p = [] then Inl IsADirectoryError
      else (case resolve_dir s (anchored p) [] (butlast (parts p)) of
              Some e \<Rightarrow> Inl e
            | None \<Rightarrow>
                (case faults s p of
                   Some e \<Rightarrow> Inl e
                 | None \<Rightarrow>
                     if p \<in> dirs s then Inl IsADirectoryError
                     else Inr (s\<lparr>files := (files s)(p \<mapsto> [])\<rparr>))))"

text \<open>\<open>f.write(chunk)\<close> on the file opened at \<open>p\<close>: the chunk is appended.\<close>

definition write_chunk :: "fs \<Rightarrow> path \<Rightarrow> bytes \<Rightarrow> fs" where
  "write_chunk s p chunk =
     s\<lparr>files := (files s)(p \<mapsto> (case files s p of None \<Rightarrow> chunk | Some old \<Rightarrow> old @ chunk))\<rparr>"

section \<open>The environment: OpenSSL, the network, the certificate files\<close>

text \<open>
  The outcome of running \<open>openssl\<close> as a subprocess: the program is missing
  (\<open>subprocess\<close> raises \<open>FileNotFoundError\<close>), or it exits with a status and has
  written some output. \<open>check_call\<close> and \<open>check_output\<close> raise
  \<open>CalledProcessError\<close> on a status other than 0.
\<close>

datatype proc = NoSuchProgram | Exited nat bytes

text \<open>
  Everything the modelled code asks of its surroundings. The three OpenSSL commands are
  functions of the content of the files they are given (\<open>None\<close>: no such file); the TLS
  context, the connection and the handshake either fail with an exception or succeed.
  The signing command also says what it left in its \<open>-out\<close> file: \<open>None\<close> when it
  did not touch it, the content when it created or emptied the file, which OpenSSL does
  before it signs, so also when it then fails.
\<close>

record env =
  CERT_FILE :: path
  KEY_FILE :: path
  openssl_sign :: "path \<Rightarrow> bytes option \<Rightarrow> proc \<times> bytes option"
  openssl_pubkey :: "path \<Rightarrow> proc"
  openssl_verify :: "bytes \<Rightarrow> bytes option \<Rightarrow> bytes option \<Rightarrow> proc"
  create_client_context :: "path \<Rightarrow> bool \<Rightarrow> exn option"
  create_connection :: "exn option"
  client_handshake :: "exn option"
  create_server_context :: "exn option"
  create_server :: "exn option"

section \<open>The signature service (\<open>base.py\<close>)\<close>

text \<open>
  \<open>sign_file(file_path, private_key)\<close> with the default signature path, the file's
  name with \<open>.sig\<close> appended. Returns the disk as the command left it and either the
  exception of \<open>check_call\<close> or the signature path. The path is returned on status 0
  whether or not the command wrote the file.
\<close>

definition sign_file :: "env \<Rightarrow> fs \<Rightarrow> path \<Rightarrow> path \<Rightarrow> fs \<times> (exn + path)" where
  "sign_file E s file_path private_key =
     (let signature_path =
            Path (anchored file_path) (butlast (parts file_path) @ [name file_path @ ascii ''.sig''])
      in case openssl_sign E private_key (files s file_path) of
           (NoSuchProgram, written) \<Rightarrow> (s, Inl FileNotFoundError)
         | (Exited rc out, written) \<Rightarrow>
             (case written of
                None \<Rightarrow> s
              | Some content \<Rightarrow> s\<lparr>files := (files s)(signature_path \<mapsto> content)\<rparr>,
              if rc \<noteq> 0 then Inl CalledProcessError else Inr signature_path))"

text \<open>
  \<open>verify_signature(file_path, cert_file, signature_path)\<close>: the public key is
  extracted with \<open>check_call\<close>, outside the inner \<open>try\<close>; only the second command
  runs under \<open>except subprocess.CalledProcessError: return False\<close>. The temporary file
  of the public key is removed in any case and is left out of the model.
\<close>

definition verify_signature :: "env \<Rightarrow> fs \<Rightarrow> path \<Rightarrow> path \<Rightarrow> path \<Rightarrow> exn + bool" where
  "verify_signature E s file_path cert_file signature_path =
     (case openssl_pubkey E cert_file of
        NoSuchProgram \<Rightarrow> Inl FileNotFoundError
      | Exited rc pub \<Rightarrow>
          if rc \<noteq> 0 then Inl CalledProcessError
          else
            (case openssl_verify E pub (files s file_path) (files s signature_path) of
               NoSuchProgram \<Rightarrow> Inl FileNotFoundError
             | Exited rc2 out \<Rightarrow>
                 if rc2 \<noteq> 0 then Inr False
                 else
                   (case utf8_decode_strict out of
                      Inl e \<Rightarrow> Inl e
                    | Inr output \<Rightarrow> Inr (contains (ascii ''Verified OK'') output))))"

section \<open>The sender (\<open>send_file\<close>)\<close>

text \<open>
  The reading loop \<open>while True: chunk = f.read(65536); if not chunk: break;
  tls.sendall(chunk)\<close>: the \<open>sendall\<close> calls it makes for a file of the given content.
\<close>

function read_chunks :: "bytes \<Rightarrow> bytes list" where
  "read_chunks content =
     (if take 65536 content = [] then []
      else take 65536 content # read_chunks (drop 65536 content))"
  by pat_completeness auto
termination
  by (relation "measure length") auto

text \<open>
  What a call of \<open>send_file\<close> has done when it returns or raises: the exception, if any;
  the disk; whether a socket was opened; the arguments of the \<open>sendall\<close> calls, in order.
\<close>

record sending =
  raised :: "exn option"
  disk :: fs
  connected :: bool
  sent :: "bytes list"

text \<open>
  The four \<open>sendall\<close> steps of one frame (lines 72 to 81, and 86 to 94 for the
  signature): \<open>struct.pack\<close> can raise between them, with the earlier ones done.
\<close>

definition send_frame :: "bytes \<Rightarrow> bytes \<Rightarrow> bytes list \<Rightarrow> exn option \<times> bytes list" where
  "send_frame name_bytes content out =
     (case pack_I (length name_bytes) of
        Inl e \<Rightarrow> (Some e, out)
      | Inr name_len \<Rightarrow>
          (case pack_Q (length content) of
             Inl e \<Rightarrow> (Some e, out @ [name_len, name_bytes])
           | Inr size_raw \<Rightarrow>
               (None, out @ [name_len, name_bytes, size_raw] @ read_chunks content)))"

text \<open>
  The body of the two \<open>with\<close> blocks: the flag, the main frame and, when there is a
  signature file, its frame. \<open>sign_flag = 1 if signature_file else 0\<close>, and a
  \<open>Path\<close> object is always true.
\<close>

definition transmit :: "fs \<Rightarrow> path \<Rightarrow> bytes \<Rightarrow> bytes \<Rightarrow> path option \<Rightarrow> exn option \<times> bytes list" where
  "transmit s file_path filename_bytes content signature_file =
     (let sign_flag = (if signature_file \<noteq> None then 1 else 0 :: nat) in
      case pack_B sign_flag of
        Inl e \<Rightarrow> (Some e, [])
      | Inr flag \<Rightarrow>
          (case send_frame filename_bytes content [flag] of
             (Some e, out) \<Rightarrow> (Some e, out)
           | (None, out) \<Rightarrow>
               (case signature_file of
                  None \<Rightarrow> (None, out)
                | Some sig_file \<Rightarrow>
                    (case utf8_encode (name sig_file) of
                       Inl e \<Rightarrow> (Some e, out)
                     | Inr sig_name_bytes \<Rightarrow>
                         (case files s sig_file of
                            None \<Rightarrow> (Some FileNotFoundError, out)
                          | Some sig_content \<Rightarrow> send_frame sig_name_bytes sig_content out)))))"

definition send_file :: "env \<Rightarrow> fs \<Rightarrow> path \<Rightarrow> bool \<Rightarrow> bool \<Rightarrow> sending" where
  "send_file E s file_path insecure sign =
     (case is_file s file_path of
        Inl e \<Rightarrow> \<lparr>raised = Some e, disk = s, connected = False, sent = []\<rparr>
      | Inr False \<Rightarrow>
          \<lparr>raised = Some FileNotFoundError, disk = s, connected = False, sent = []\<rparr>
      | Inr True \<Rightarrow>
        (case (if sign then
                 (case sign_file E s file_path (KEY_FILE E) of
                    (s1, Inl e) \<Rightarrow> (s1, Inl e)
                  | (s1, Inr sig_path) \<Rightarrow> (s1, Inr (Some sig_path)))
               else (s, Inr None)) of
           (s1, Inl e) \<Rightarrow> \<lparr>raised = Some e, disk = s1, connected = False, sent = []\<rparr>
         | (s1, Inr signature_file) \<Rightarrow>
             (case utf8_encode (name file_path) of
                Inl e \<Rightarrow> \<lparr>raised = Some e, disk = s1, connected = False, sent = []\<rparr>
              | Inr filename_bytes \<Rightarrow>
                  (case files s1 file_path of
                     None \<Rightarrow>
                       \<lparr>raised = Some FileNotFoundError, disk = s1, connected = False, sent = []\<rparr>
                   | Some content \<Rightarrow>
                       (case create_client_context E (CERT_FILE E) insecure of
                          Some e \<Rightarrow> \<lparr>raised = Some e, disk = s1, connected = False, sent = []\<rparr>
                        | None \<Rightarrow>
                            (case create_connection E of
                               Some e \<Rightarrow>
                                 \<lparr>raised = Some e, disk = s1, connected = False, sent = []\<rparr>
                             | None \<Rightarrow>
                                 (case client_handshake E of
                                    Some e \<Rightarrow>
                                      \<lparr>raised = Some e, disk = s1, connected = True, sent = []\<rparr>
                                  | None \<Rightarrow>
                                      (case transmit s1 file_path filename_bytes content
                                              signature_file of
                                         (r, out) \<Rightarrow>
                                           \<lparr>raised = r, disk = s1, connected = True,
                                            sent = out\<rparr>))))))))"

section \<open>The receiver (\<open>receive_files\<close>)\<close>

text \<open>
  The name and the size of a frame (lines 118 to 124, and 139 to 144 for the signature):
  four bytes of name length, the name, decoded leniently, and eight bytes of size.
\<close>

definition recv_header :: "conn \<Rightarrow> (exn + pystr \<times> nat) \<times> conn" where
  "recv_header c =
     (case recv_all c 4 of
        (Inl e, c1) \<Rightarrow> (Inl e, c1)
      | (Inr name_len_raw, c1) \<Rightarrow>
          (case unpack_I name_len_raw of
             Inl e \<Rightarrow> (Inl e, c1)
           | Inr name_len \<Rightarrow>
               (case recv_all c1 name_len of
                  (Inl e, c2) \<Rightarrow> (Inl e, c2)
                | (Inr filename_bytes, c2) \<Rightarrow>
                    (case recv_all c2 8 of
                       (Inl e, c3) \<Rightarrow> (Inl e, c3)
                     | (Inr size_raw, c3) \<Rightarrow>
                         (case unpack_Q size_raw of
                            Inl e \<Rightarrow> (Inl e, c3)
                          | Inr fsize \<Rightarrow>
                              (Inr (utf8_decode_replace filename_bytes, fsize), c3))))))"

text \<open>
  The loop \<open>while remaining > 0\<close> that copies the content of a frame into the open
  file, at most 65536 bytes at a time. What was written stays on the disk when the loop
  raises.
\<close>

function recv_content :: "conn \<Rightarrow> fs \<Rightarrow> path \<Rightarrow> nat \<Rightarrow> exn option \<times> conn \<times> fs" where
  "recv_content c s p remaining =
     (if remaining > 0 then
        (case recv c (min 65536 remaining) of
           (Inl e, c') \<Rightarrow> (Some e, c', s)
         | (Inr chunk, c') \<Rightarrow>
             if chunk = [] then (Some ConnectionError, c', s)
             else recv_content c' (write_chunk s p chunk) p (remaining - length chunk))
      else (None, c, s))"
  by pat_completeness auto
termination
proof (relation "measure (\<lambda>(c, s, p, remaining). remaining)")
  show "wf (measure (\<lambda>(c, s, p, remaining). remaining))"
    by simp
next
  fix c c' :: conn and s :: fs and p :: path and remaining :: nat and chunk :: bytes
  assume "0 < remaining" and "chunk \<noteq> []"
  then show "((c', write_chunk s p chunk, p, remaining - length chunk), (c, s, p, remaining))
      \<in> measure (\<lambda>(c, s, p, remaining). remaining)"
    by (cases chunk) auto
qed

text \<open>What the receiver prints, and the closing of the client socket.\<close>

datatype action =
    PrintListening
  | PrintConnected
  | PrintSaved path
  | PrintSavedSignature path
  | PrintVerified pystr
  | PrintVerifyFailed pystr
  | PrintError exn
  | CloseClient

text \<open>
  A client, as the accept loop meets it: the outcome of the TLS handshake
  (\<open>wrap_socket\<close>) and the events of the stream.
\<close>

record client =
  handshake :: "exn option"
  stream :: conn

text \<open>
  The block under \<open>if sign_flag:\<close> (lines 139 to 160). No directory is created for the
  signature path.
\<close>

definition receive_signature ::
  "env \<Rightarrow> path \<Rightarrow> bool \<Rightarrow> fs \<Rightarrow> conn \<Rightarrow> path \<Rightarrow> exn option \<times> fs \<times> action list" where
  "receive_signature E out_dir verify s c file_path =
     (case recv_header c of
        (Inl e, c1) \<Rightarrow> (Some e, s, [])
      | (Inr (sig_filename, sig_size), c1) \<Rightarrow>
          (let sig_path = joinpath out_dir sig_filename in
           case open_wb s sig_path of
             Inl e \<Rightarrow> (Some e, s, [])
           | Inr s1 \<Rightarrow>
               (case recv_content c1 s1 sig_path sig_size of
                  (Some e, c2, s2) \<Rightarrow> (Some e, s2, [])
                | (None, c2, s2) \<Rightarrow>
                    if verify then
                      (case verify_signature E s2 file_path (CERT_FILE E) sig_path of
                         Inl e \<Rightarrow> (Some e, s2, [PrintSavedSignature sig_path])
                       | Inr ok \<Rightarrow>
                           (None, s2,
                            [PrintSavedSignature sig_path,
                             if ok then PrintVerified (name file_path)
                             else PrintVerifyFailed (name file_path)]))
                    else (None, s2, [PrintSavedSignature sig_path]))))"

text \<open>
  The body of the \<open>try\<close> for one accepted client (lines 113 to 160): the exception that
  ends it, if any, the disk and what was printed.
\<close>

definition handle_connection ::
  "env \<Rightarrow> path \<Rightarrow> bool \<Rightarrow> fs \<Rightarrow> client \<Rightarrow> exn option \<times> fs \<times> action list" where
  "handle_connection E out_dir verify s cl =
     (case handshake cl of
        Some e \<Rightarrow> (Some e, s, [])
      | None \<Rightarrow>
          (case recv_all (stream cl) 1 of
             (Inl e, c1) \<Rightarrow> (Some e, s, [])
           | (Inr sign_flag_raw, c1) \<Rightarrow>
               (case unpack_B sign_flag_raw of
                  Inl e \<Rightarrow> (Some e, s, [])
                | Inr sign_flag \<Rightarrow>
                    (case recv_header c1 of
                       (Inl e, c2) \<Rightarrow> (Some e, s, [])
                     | (Inr (filename, fsize), c2) \<Rightarrow>
                         (let file_path = joinpath out_dir filename in
                          case mkdir_parents s (parent file_path) of
                            Inl e \<Rightarrow> (Some e, s, [])
                          | Inr s1 \<Rightarrow>
                              (case open_wb s1 file_path of
                                 Inl e \<Rightarrow> (Some e, s1, [])
                               | Inr s2 \<Rightarrow>
                                   (case recv_content c2 s2 file_path fsize of
                                      (Some e, c3, s3) \<Rightarrow> (Some e, s3, [])
                                    | (None, c3, s3) \<Rightarrow>
                                        if sign_flag \<noteq> 0 then
                                          (case receive_signature E out_dir verify s3 c3
                                                  file_path of
                                             (r, s4, out) \<Rightarrow>
                                               (r, s4, PrintSaved file_path # out))
                                        else (None, s3, [PrintSaved file_path]))))))))"

text \<open>
  The accept loop \<open>while True\<close>, run on the clients that connect, in order: each is
  handled under \<open>try\<close>, an exception is printed, and \<open>finally\<close> closes the client
  socket. When no client is left the loop waits in \<open>accept\<close>; it has no exit of its own.
\<close>

fun accept_loop ::
  "env \<Rightarrow> path \<Rightarrow> bool \<Rightarrow> fs \<Rightarrow> action list \<Rightarrow> client list \<Rightarrow> fs \<times> action list" where
  "accept_loop E out_dir verify s out [] = (s, out)"
| "accept_loop E out_dir verify s out (cl # cls) =
     (case handle_connection E out_dir verify s cl of
        (None, s', printed) \<Rightarrow>
          accept_loop E out_dir verify s' (out @ PrintConnected # printed @ [CloseClient]) cls
      | (Some e, s', printed) \<Rightarrow>
          accept_loop E out_dir verify s'
            (out @ PrintConnected # printed @ [PrintError e, CloseClient]) cls)"

text \<open>
  \<open>receive_files\<close> on the clients that connect while it runs: the exception that ended
  it, if any (\<open>None\<close>: it is still waiting in \<open>accept\<close>), the disk and the output.
\<close>

definition receive_files ::
  "env \<Rightarrow> path \<Rightarrow> bool \<Rightarrow> fs \<Rightarrow> client list \<Rightarrow> exn option \<times> fs \<times> action list" where
  "receive_files E out_dir verify s clients =
     (case mkdir_parents s out_dir of
        Inl e \<Rightarrow> (Some e, s, [])
      | Inr s1 \<Rightarrow>
          (case create_server_context E of
             Some e \<Rightarrow> (Some e, s1, [])
           | None \<Rightarrow>
               (case create_server E of
                  Some e \<Rightarrow> (Some e, s1, [])
                | None \<Rightarrow>
                    (case accept_loop E out_dir verify s1 [PrintListening] clients of
                       (s2, out) \<Rightarrow> (None, s2, out)))))"

section \<open>The wire layout as the specification states it\<close>





section \<open>Concrete inputs\<close>

text \<open>
  An environment in which everything works: OpenSSL signs with the three bytes
  \<open>SIG\<close>, extracts a public key and answers \<open>Verified OK\<close>; the network and
  the TLS layer raise nothing.
\<close>

definition demo_env :: env where
  "demo_env =
     \<lparr>CERT_FILE = Path False [ascii ''server.crt''],
      KEY_FILE = Path False [ascii ''server.key''],
      openssl_sign = (\<lambda>key content. (Exited 0 [], Some [0x53, 0x49, 0x47])),
      openssl_pubkey = (\<lambda>cert. Exited 0 [0x50, 0x55, 0x42]),
      openssl_verify =
        (\<lambda>pub content signature.
           Exited 0 [0x56, 0x65, 0x72, 0x69, 0x66, 0x69, 0x65, 0x64, 0x20, 0x4F, 0x4B, 0x0A]),
      create_client_context = (\<lambda>cert insecure. None),
      create_connection = None,
      client_handshake = None,
      create_server_context = None,
      create_server = None\<rparr>"

text \<open>
  The same environment with a certificate that \<open>openssl x509\<close> cannot read: the
  extraction of the public key exits with status 1.
\<close>

definition bad_cert_env :: env where
  "bad_cert_env = demo_env\<lparr>openssl_pubkey := \<lambda>cert. Exited 1 []\<rparr>"

text \<open>
  A disk with the directory \<open>out\<close>, the two-byte file \<open>a.txt\<close> and a signature
  \<open>a.txt.sig\<close>.
\<close>

definition demo_disk :: fs where
  "demo_disk =
     \<lparr>dirs = {Path False [ascii ''out'']},
      files = [Path False [ascii ''a.txt''] \<mapsto> [0x68, 0x69],
               Path False [ascii ''a.txt.sig''] \<mapsto> [0x53, 0x49, 0x47]],
      faults = Map.empty\<rparr>"

text \<open>The envelope of \<open>a.txt\<close> with content \<open>hi\<close>, unsigned, as one segment.\<close>

definition demo_wire :: bytes where
  "demo_wire = [0, 0, 0, 0, 5, 97, 46, 116, 120, 116, 0, 0, 0, 0, 0, 0, 0, 2, 104, 105]"



text \<open>
  A path whose single part is 300 characters long, and the demo disk on which every
  access to it fails with \<open>ENAMETOOLONG\<close>, as a file system with names of at most 255
  bytes does.
\<close>

definition long_name :: path where
  "long_name = Path False [replicate 300 110]"

definition strict_disk :: fs where
  "strict_disk = demo_disk\<lparr>faults := [long_name \<mapsto> OSError 36]\<rparr>"

section \<open>Properties of \<open>recv\<close> and \<open>_recv_all\<close>\<close>

lemma recv_length: "recv c k = (Inr chunk, c') \<Longrightarrow> length chunk \<le> k"
  by (induction c k rule: recv.induct) (auto split: if_splits)

lemma recv_fault:
  "recv c k = (Inl e, c') \<Longrightarrow> Fault e \<in> set c"
  by (induction c k rule: recv.induct) (auto split: if_splits)

lemma recv_set:
  "recv c k = (r, c') \<Longrightarrow> Fault e \<in> set c' \<Longrightarrow> Fault e \<in> set c"
  by (induction c k rule: recv.induct) (auto split: if_splits)

lemma recv_all_loop_cases:
  "length data \<le> len \<Longrightarrow>
   (case recv_all_loop c len data of
      (Inr d, c') \<Rightarrow> length d = len
    | (Inl e, c') \<Rightarrow> e = ConnectionError \<or> Fault e \<in> set c)"
proof (induction c len data rule: recv_all_loop.induct)
  case (1 c len data)
  show ?case
  proof (cases "length data < len")
    case False
    with "1.prems" show ?thesis
      by (simp add: recv_all_loop.simps [of c len data])
  next
    case True
    obtain r c1 where rc: "recv c (len - length data) = (r, c1)"
      by (cases "recv c (len - length data)")
    show ?thesis
    proof (cases r)
      case (Inl e)
      with True rc show ?thesis
        by (simp add: recv_all_loop.simps [of c len data] recv_fault)
    next
      case (Inr chunk)
      show ?thesis
      proof (cases "chunk = []")
        case True
        with \<open>length data < len\<close> rc Inr show ?thesis
          by (simp add: recv_all_loop.simps [of c len data])
      next
        case False
        from rc Inr have "length chunk \<le> len - length data"
          by (auto dest: recv_length)
        with True have "length (data @ chunk) \<le> len"
          by simp
        from "1.IH" [OF True rc [symmetric] Inr False this]
        have ih: "case recv_all_loop c1 len (data @ chunk) of
                (Inr d, c') \<Rightarrow> length d = len
              | (Inl e, c') \<Rightarrow> e = ConnectionError \<or> Fault e \<in> set c1" .
        have eq: "recv_all_loop c len data = recv_all_loop c1 len (data @ chunk)"
          using True rc Inr False by (simp add: recv_all_loop.simps [of c len data])
        obtain r2 c2 where r2: "recv_all_loop c1 len (data @ chunk) = (r2, c2)"
          by (cases "recv_all_loop c1 len (data @ chunk)")
        show ?thesis
        proof (cases r2)
          case (Inl e)
          with ih r2 have "e = ConnectionError \<or> Fault e \<in> set c1"
            by simp
          then have "e = ConnectionError \<or> Fault e \<in> set c"
            using rc recv_set by blast
          with eq r2 Inl show ?thesis
            by simp
        next
          case (Inr d)
          with ih r2 eq show ?thesis
            by simp
        qed
      qed
    qed
  qed
qed

text \<open>
  Claim C9, as amended. For every connection and every length \<open>n\<close>,
  \<open>_recv_all(conn, n)\<close> has one of three outcomes: it returns exactly \<open>n\<close> bytes;
  it raises its own \<open>ConnectionError\<close>, the stream having closed; or it lets pass the
  exception that \<open>conn.recv\<close> raised. It never returns fewer than \<open>n\<close> bytes.
\<close>

theorem recv_all_exact_or_raises:
  "case recv_all c n of
     (Inr d, c') \<Rightarrow> length d = n
   | (Inl e, c') \<Rightarrow> e = ConnectionError \<or> Fault e \<in> set c"
  unfolding recv_all_def by (rule recv_all_loop_cases) simp

text \<open>
  The claim as stated knows the first two outcomes only. When \<open>conn.recv\<close> raises
  \<open>ssl.SSLError\<close>, \<open>_recv_all\<close> raises it too, and it is not a
  \<open>ConnectionError\<close>.
\<close>

theorem recv_all_passes_recv_error:
  "recv_all [Fault SSLError] 1 = (Inl SSLError, [])"
  by (simp add: recv_all_def recv_all_loop.simps [of "[Fault SSLError]" 1 "[]"])

subsection \<open>Streams on which no \<open>recv\<close> raises\<close>

lemma recv_faultless:
  assumes "faultless c"
  shows "\<exists>chunk c'. recv c k = (Inr chunk, c') \<and> faultless c' \<and>
     chunk @ pending c' = pending c \<and> length chunk \<le> k \<and>
     (chunk = [] \<longrightarrow> k = 0 \<or> pending c = [])"
  using assms
proof (induction c k rule: recv.induct)
  case (1 k)
  then show ?case by simp
next
  case (2 e es k)
  then show ?case by simp
next
  case (3 d es k)
  show ?case
  proof (cases "d = []")
    case True
    with 3 show ?thesis by simp
  next
    case False
    show ?thesis
    proof (cases "length d \<le> k")
      case True
      with False 3 show ?thesis by simp
    next
      case False
      with \<open>d \<noteq> []\<close> 3 show ?thesis by simp
    qed
  qed
qed


lemma recv_all_loop_faultless:
  assumes "faultless c" and "length data \<le> len"
  shows "(len - length data \<le> length (pending c) \<longrightarrow>
           (\<exists>c'. recv_all_loop c len data =
                   (Inr (data @ take (len - length data) (pending c)), c') \<and>
                 faultless c' \<and> pending c' = drop (len - length data) (pending c))) \<and>
         (length (pending c) < len - length data \<longrightarrow>
           (\<exists>c'. recv_all_loop c len data = (Inl ConnectionError, c')))"
  using assms
proof (induction c len data rule: recv_all_loop.induct)
  case (1 c len data)
  show ?case
  proof (cases "length data < len")
    case False
    with "1.prems" show ?thesis
      by (simp add: recv_all_loop.simps [of c len data])
  next
    case True
    from recv_faultless [OF "1.prems"(1), of "len - length data"]
    obtain chunk c1 where rc: "recv c (len - length data) = (Inr chunk, c1)"
      and f1: "faultless c1" and pc: "chunk @ pending c1 = pending c"
      and le: "length chunk \<le> len - length data"
      and em: "chunk = [] \<longrightarrow> len - length data = 0 \<or> pending c = []"
      by blast
    show ?thesis
    proof (cases "chunk = []")
      case True
      with em \<open>length data < len\<close> have "pending c = []"
        by simp
      with True rc \<open>length data < len\<close> show ?thesis
        by (simp add: recv_all_loop.simps [of c len data])
    next
      case False
      have eq: "recv_all_loop c len data = recv_all_loop c1 len (data @ chunk)"
        using True rc False by (simp add: recv_all_loop.simps [of c len data])
      from le True have l2: "length (data @ chunk) \<le> len"
        by simp
      note ih = "1.IH" [OF True rc [symmetric] refl False f1 l2]
      have len_eq: "len - length (data @ chunk) = len - length data - length chunk"
        by simp
      have tk: "take (len - length data) (pending c) =
          chunk @ take (len - length data - length chunk) (pending c1)"
        using le by (simp add: pc [symmetric])
      have dr: "drop (len - length data) (pending c) =
          drop (len - length data - length chunk) (pending c1)"
        using le by (simp add: pc [symmetric])
      have ln: "length (pending c) = length chunk + length (pending c1)"
        by (simp add: pc [symmetric])
      show ?thesis
        using ih le unfolding eq len_eq tk dr ln by auto
    qed
  qed
qed

lemma recv_all_faultless_ok:
  assumes "faultless c" and "n \<le> length (pending c)"
  shows "\<exists>c'. recv_all c n = (Inr (take n (pending c)), c') \<and>
               faultless c' \<and> pending c' = drop n (pending c)"
  using recv_all_loop_faultless [OF assms(1), of "[]" n] assms(2)
  by (simp add: recv_all_def)

lemma recv_all_faultless_short:
  assumes "faultless c" and "length (pending c) < n"
  shows "\<exists>c'. recv_all c n = (Inl ConnectionError, c')"
  using recv_all_loop_faultless [OF assms(1), of "[]" n] assms(2)
  by (simp add: recv_all_def)




section \<open>The sender fails before it connects\<close>

text \<open>
  Claim C6, as amended. When \<open>file_path\<close> is not an existing regular file,
  \<open>send_file\<close> raises and has done nothing else: the disk is as it was (no signature
  file was written), no socket was opened and nothing was sent. It raises
  \<open>FileNotFoundError\<close> when \<open>Path.is_file()\<close> answers \<open>False\<close>, and the
  \<open>OSError\<close> of \<open>Path.is_file()\<close> itself when that raises.
\<close>

theorem send_file_missing_file:
  "is_file s file_path \<noteq> Inr True \<Longrightarrow>
   send_file E s file_path insecure sign =
     \<lparr>raised = Some (case is_file s file_path of Inl e \<Rightarrow> e | Inr b \<Rightarrow> FileNotFoundError),
      disk = s, connected = False, sent = []\<rparr>"
proof (cases "is_file s file_path")
  case (Inl e)
  then show ?thesis
    by (simp add: send_file_def)
next
  case (Inr b)
  assume "is_file s file_path \<noteq> Inr True"
  with Inr have "b = False"
    by simp
  with Inr show ?thesis
    by (simp add: send_file_def)
qed

theorem send_file_missing_file_witness:
  "is_file demo_disk (Path False [ascii ''b.txt'']) \<noteq> Inr True \<and>
   send_file demo_env demo_disk (Path False [ascii ''b.txt'']) False True =
     \<lparr>raised = Some FileNotFoundError, disk = demo_disk, connected = False, sent = []\<rparr>"
proof -
  have v: "is_file demo_disk (Path False [ascii ''b.txt'']) = Inr False"
    by (simp add: is_file_def has_nul_def is_regular_def demo_disk_def ascii_def)
  then have h: "is_file demo_disk (Path False [ascii ''b.txt'']) \<noteq> Inr True"
    by simp
  from send_file_missing_file [OF h, of demo_env False True] v h show ?thesis
    by simp
qed

text \<open>
  The claim as stated promises \<open>FileNotFoundError\<close> for every missing file. On a path
  whose name is too long for the file system no file exists, \<open>Path.is_file()\<close> raises
  \<open>OSError\<close> with \<open>ENAMETOOLONG\<close>, and that is what \<open>send_file\<close> raises.
\<close>

theorem send_file_name_too_long:
  "files strict_disk long_name = None \<and>
   raised (send_file demo_env strict_disk long_name False False) = Some (OSError 36)"
proof -
  have ne: "replicate 300 (110 :: nat) \<noteq> xs" if "length xs \<noteq> 300" for xs
    using that by (metis length_replicate)
  have 1: "replicate 300 (110 :: nat) \<noteq> [97, 46, 116, 120, 116]"
    by (rule ne) simp
  have 2: "replicate 300 (110 :: nat) \<noteq> [97, 46, 116, 120, 116, 46, 115, 105, 103]"
    by (rule ne) simp
  show ?thesis
    by (simp add: send_file_def is_file_def has_nul_def ignore_error_def strict_disk_def
        demo_disk_def long_name_def ascii_def 1 2)
qed

lemma send_frame_prefix: "\<exists>more. snd (send_frame nb content out) = out @ more"
  by (simp add: send_frame_def split: sum.splits)

lemma transmit_flag:
  "snd (transmit s p nb content (Some sp)) = [] \<or>
   (\<exists>more. snd (transmit s p nb content (Some sp)) = [1] # more)"
proof -
  have p1: "pack_B 1 = Inr [1]"
    by (simp add: struct_pack_def)
  obtain r out where sf: "send_frame nb content [[1]] = (r, out)"
    by (cases "send_frame nb content [[1]]")
  from send_frame_prefix [of nb content "[[1]]"] sf obtain m1 where out: "out = [1] # m1"
    by auto
  show ?thesis
  proof (cases r)
    case (Some e)
    with sf out p1 show ?thesis by (simp add: transmit_def)
  next
    case None
    show ?thesis
    proof (cases "utf8_encode (name sp)")
      case (Inl e)
      with sf out p1 None show ?thesis by (simp add: transmit_def)
    next
      case (Inr snb)
      show ?thesis
      proof (cases "files s sp")
        case None
        with sf out p1 \<open>r = None\<close> Inr show ?thesis by (simp add: transmit_def)
      next
        case (Some sc)
        from send_frame_prefix [of snb sc out] out
        obtain m2 where "snd (send_frame snb sc out) = [1] # m2"
          by auto
        with sf out p1 \<open>r = None\<close> Inr Some show ?thesis by (simp add: transmit_def)
      qed
    qed
  qed
qed

text \<open>
  Claim C7. With \<open>sign = True\<close>, a failing signing step makes \<open>send_file\<close> raise
  that failure with no socket opened and nothing sent; and whatever else happens, if a
  call with \<open>sign = True\<close> sends anything at all, the first thing it sends is the flag
  byte 1, never an envelope with flag 0.
\<close>

theorem send_file_sign_fails_closed:
  "(is_file s file_path = Inr True \<and> snd (sign_file E s file_path (KEY_FILE E)) = Inl e \<longrightarrow>
      raised (send_file E s file_path insecure True) = Some e \<and>
      \<not> connected (send_file E s file_path insecure True) \<and>
      sent (send_file E s file_path insecure True) = []) \<and>
   (sent (send_file E s file_path insecure True) = [] \<or>
    (\<exists>more. sent (send_file E s file_path insecure True) = [1] # more))"
proof (intro conjI impI)
  assume a: "is_file s file_path = Inr True \<and>
    snd (sign_file E s file_path (KEY_FILE E)) = Inl e"
  obtain s1 r where sf: "sign_file E s file_path (KEY_FILE E) = (s1, r)"
    by (cases "sign_file E s file_path (KEY_FILE E)")
  with a have "r = Inl e"
    by simp
  with a sf show "raised (send_file E s file_path insecure True) = Some e"
    and "\<not> connected (send_file E s file_path insecure True)"
    and "sent (send_file E s file_path insecure True) = []"
    by (simp_all add: send_file_def)
next
  show "sent (send_file E s file_path insecure True) = [] \<or>
    (\<exists>more. sent (send_file E s file_path insecure True) = [1] # more)"
  proof (cases "is_file s file_path = Inr True")
    case False
    then show ?thesis
      by (cases "is_file s file_path") (auto simp: send_file_def)
  next
    case True
    obtain s1 r where sf: "sign_file E s file_path (KEY_FILE E) = (s1, r)"
      by (cases "sign_file E s file_path (KEY_FILE E)")
    show ?thesis
    proof (cases r)
      case (Inl e)
      with True sf show ?thesis
        by (simp add: send_file_def)
    next
      case (Inr sp)
      have "out = [] \<or> (\<exists>more. out = [1] # more)"
        if "transmit s1 file_path nb content (Some sp) = (x, out)" for nb content x out
        using that transmit_flag [of s1 file_path nb content sp] by simp
      with True sf Inr show ?thesis
        by (auto simp: send_file_def split: sum.splits option.splits prod.splits)
    qed
  qed
qed

theorem send_file_sign_fails_closed_witness:
  "is_file demo_disk (Path False [ascii ''a.txt'']) = Inr True \<and>
   snd (sign_file (demo_env\<lparr>openssl_sign := \<lambda>key content. (Exited 1 [], Some [])\<rparr>) demo_disk
     (Path False [ascii ''a.txt''])
     (KEY_FILE (demo_env\<lparr>openssl_sign := \<lambda>key content. (Exited 1 [], Some [])\<rparr>))) =
     Inl CalledProcessError \<and>
   raised (send_file (demo_env\<lparr>openssl_sign := \<lambda>key content. (Exited 1 [], Some [])\<rparr>)
     demo_disk (Path False [ascii ''a.txt'']) False True) = Some CalledProcessError \<and>
   \<not> connected (send_file (demo_env\<lparr>openssl_sign := \<lambda>key content. (Exited 1 [], Some [])\<rparr>)
     demo_disk (Path False [ascii ''a.txt'']) False True) \<and>
   sent (send_file (demo_env\<lparr>openssl_sign := \<lambda>key content. (Exited 1 [], Some [])\<rparr>)
     demo_disk (Path False [ascii ''a.txt'']) False True) = []"
proof -
  let ?E = "demo_env\<lparr>openssl_sign := \<lambda>key content. (Exited 1 [], Some [])\<rparr>"
  let ?p = "Path False [ascii ''a.txt'']"
  have h1: "snd (sign_file ?E demo_disk ?p (KEY_FILE ?E)) = Inl CalledProcessError"
    by (simp add: sign_file_def demo_env_def)
  have h2: "is_file demo_disk ?p = Inr True"
    by (simp add: is_file_def has_nul_def is_regular_def demo_disk_def ascii_def)
  from send_file_sign_fails_closed [of demo_disk ?p ?E CalledProcessError False] h1 h2
  have "raised (send_file ?E demo_disk ?p False True) = Some CalledProcessError \<and>
      \<not> connected (send_file ?E demo_disk ?p False True) \<and>
      sent (send_file ?E demo_disk ?p False True) = []"
    by blast
  with h1 h2 show ?thesis
    by simp
qed

section \<open>What \<open>verify_signature\<close> returns and what it raises\<close>

text \<open>
  Claim C2, as amended. \<open>verify_signature\<close> returns \<open>False\<close>, without raising, when
  the verification command \<open>openssl dgst -verify\<close> exits with a status other than 0 (a
  signature that does not verify or cannot be parsed, a file or a signature that cannot be
  read). When the public key cannot be extracted from the certificate, that is when
  \<open>openssl x509 -pubkey\<close> exits with a status other than 0, it raises
  \<open>CalledProcessError\<close>: that command runs under \<open>check_call\<close> outside the inner
  \<open>try\<close>.
\<close>

theorem verify_signature_false_or_raises:
  "(openssl_pubkey E cert_file = Exited 0 pub \<and>
    openssl_verify E pub (files s file_path) (files s signature_path) = Exited rc out \<and>
    rc \<noteq> 0 \<longrightarrow>
      verify_signature E s file_path cert_file signature_path = Inr False) \<and>
   (openssl_pubkey E cert_file = Exited rc' out' \<and> rc' \<noteq> 0 \<longrightarrow>
      verify_signature E s file_path cert_file signature_path = Inl CalledProcessError)"
  by (simp add: verify_signature_def)

theorem verify_signature_false_or_raises_witness:
  "verify_signature (demo_env\<lparr>openssl_verify := \<lambda>pub content signature. Exited 1 []\<rparr>)
     demo_disk (Path False [ascii ''a.txt'']) (Path False [ascii ''server.crt''])
     (Path False [ascii ''a.txt.sig'']) = Inr False \<and>
   verify_signature (demo_env\<lparr>openssl_pubkey := \<lambda>cert. Exited 1 []\<rparr>)
     demo_disk (Path False [ascii ''a.txt'']) (Path False [ascii ''server.crt''])
     (Path False [ascii ''a.txt.sig'']) = Inl CalledProcessError"
proof -
  let ?E1 = "demo_env\<lparr>openssl_verify := \<lambda>pub content signature. Exited 1 []\<rparr>"
  let ?E2 = "demo_env\<lparr>openssl_pubkey := \<lambda>cert. Exited 1 []\<rparr>"
  let ?f = "Path False [ascii ''a.txt'']" and ?c = "Path False [ascii ''server.crt'']"
  let ?g = "Path False [ascii ''a.txt.sig'']"
  have a: "openssl_pubkey ?E1 ?c = Exited 0 [0x50, 0x55, 0x42]"
    by (simp add: demo_env_def)
  have b: "openssl_verify ?E1 [0x50, 0x55, 0x42] (files demo_disk ?f) (files demo_disk ?g)
      = Exited 1 []"
    by simp
  have c: "openssl_pubkey ?E2 ?c = Exited 1 []"
    by simp
  from verify_signature_false_or_raises [of ?E1 ?c "[0x50, 0x55, 0x42]" demo_disk ?f ?g 1 "[]"] a b
  have 1: "verify_signature ?E1 demo_disk ?f ?c ?g = Inr False"
    by simp
  from verify_signature_false_or_raises [of ?E2 ?c _ demo_disk ?f ?g _ _ 1 "[]"] c
  have 2: "verify_signature ?E2 demo_disk ?f ?c ?g = Inl CalledProcessError"
    by simp
  from 1 2 show ?thesis
    by simp
qed

text \<open>
  The claim as stated promises \<open>False\<close> for a certificate that cannot be parsed. With the
  file and its signature in place and a certificate on which \<open>openssl x509\<close> exits with
  status 1, \<open>verify_signature\<close> raises \<open>CalledProcessError\<close>.
\<close>

theorem verify_signature_bad_certificate_raises:
  "files demo_disk (Path False [ascii ''a.txt'']) = Some [0x68, 0x69] \<and>
   files demo_disk (Path False [ascii ''a.txt.sig'']) = Some [0x53, 0x49, 0x47] \<and>
   verify_signature bad_cert_env demo_disk
     (Path False [ascii ''a.txt'']) (Path False [ascii ''server.crt''])
     (Path False [ascii ''a.txt.sig'']) = Inl CalledProcessError"
  by (simp add: verify_signature_def demo_disk_def demo_env_def bad_cert_env_def ascii_def)

section \<open>The accept loop outlives every connection\<close>

text \<open>
  What is printed for one connection never contains the line of \<open>accept\<close> or the
  closing of the socket, so that these count the connections in the output.
\<close>

lemma receive_signature_printed:
  assumes "receive_signature E out_dir verify s c file_path = (r, s', printed)"
  shows "PrintConnected \<notin> set printed \<and> CloseClient \<notin> set printed"
proof -
  obtain rh c1 where h: "recv_header c = (rh, c1)"
    by (cases "recv_header c")
  show ?thesis
  proof (cases rh)
    case (Inl e)
    with assms h show ?thesis
      by (simp add: receive_signature_def)
  next
    case (Inr hd)
    obtain sig_filename sig_size where hd: "hd = (sig_filename, sig_size)"
      by (cases hd)
    let ?p = "joinpath out_dir sig_filename"
    show ?thesis
    proof (cases "open_wb s ?p")
      case (Inl e)
      with assms h Inr hd show ?thesis
        by (simp add: receive_signature_def)
    next
      case op: (Inr s1)
      obtain r2 c2 s2 where rc: "recv_content c1 s1 ?p sig_size = (r2, c2, s2)"
        by (cases "recv_content c1 s1 ?p sig_size")
      show ?thesis
      proof (cases r2)
        case (Some e)
        with assms h Inr hd op rc show ?thesis
          by (simp add: receive_signature_def)
      next
        case None
        show ?thesis
        proof (cases verify)
          case False
          with assms h Inr hd op rc None show ?thesis
            by (auto simp add: receive_signature_def)
        next
          case True
          show ?thesis
          proof (cases "verify_signature E s2 file_path (CERT_FILE E) ?p")
            case (Inl e)
            with assms h Inr hd op rc None True show ?thesis
              by (auto simp add: receive_signature_def)
          next
            case v: (Inr ok)
            with assms h Inr hd op rc None True show ?thesis
              by (cases ok) (auto simp add: receive_signature_def)
          qed
        qed
      qed
    qed
  qed
qed

lemma handle_connection_printed:
  assumes "handle_connection E out_dir verify s cl = (r, s', printed)"
  shows "PrintConnected \<notin> set printed \<and> CloseClient \<notin> set printed"
proof (cases "handshake cl")
  case (Some e)
  with assms show ?thesis
    by (simp add: handle_connection_def)
next
  case hs: None
  obtain r1 c1 where f: "recv_all (stream cl) 1 = (r1, c1)"
    by (cases "recv_all (stream cl) 1")
  show ?thesis
  proof (cases r1)
    case (Inl e)
    with assms hs f show ?thesis
      by (simp add: handle_connection_def)
  next
    case raw: (Inr sign_flag_raw)
    show ?thesis
    proof (cases "unpack_B sign_flag_raw")
      case (Inl e)
      with assms hs f raw show ?thesis
        by (simp add: handle_connection_def)
    next
      case fl: (Inr sign_flag)
      obtain rh c2 where h: "recv_header c1 = (rh, c2)"
        by (cases "recv_header c1")
      show ?thesis
      proof (cases rh)
        case (Inl e)
        with assms hs f raw fl h show ?thesis
          by (simp add: handle_connection_def)
      next
        case (Inr hd)
        obtain filename fsize where hd: "hd = (filename, fsize)"
          by (cases hd)
        let ?p = "joinpath out_dir filename"
        show ?thesis
        proof (cases "mkdir_parents s (parent ?p)")
          case (Inl e)
          with assms hs f raw fl h Inr hd show ?thesis
            by (simp add: handle_connection_def)
        next
          case mk: (Inr s1)
          show ?thesis
          proof (cases "open_wb s1 ?p")
            case (Inl e)
            with assms hs f raw fl h Inr hd mk show ?thesis
              by (simp add: handle_connection_def)
          next
            case op: (Inr s2)
            obtain r3 c3 s3 where rc: "recv_content c2 s2 ?p fsize = (r3, c3, s3)"
              by (cases "recv_content c2 s2 ?p fsize")
            show ?thesis
            proof (cases r3)
              case (Some e)
              with assms hs f raw fl h Inr hd mk op rc show ?thesis
                by (simp add: handle_connection_def)
            next
              case None
              show ?thesis
              proof (cases "sign_flag = 0")
                case True
                with assms hs f raw fl h Inr hd mk op rc None show ?thesis
                  by (auto simp add: handle_connection_def)
              next
                case False
                obtain r4 s4 out where
                  sg: "receive_signature E out_dir verify s3 c3 ?p = (r4, s4, out)"
                  by (cases "receive_signature E out_dir verify s3 c3 ?p")
                from receive_signature_printed [OF sg]
                have "PrintConnected \<notin> set out \<and> CloseClient \<notin> set out" .
                with assms hs f raw fl h Inr hd mk op rc None False sg show ?thesis
                  by (auto simp add: handle_connection_def)
              qed
            qed
          qed
        qed
      qed
    qed
  qed
qed

lemma accept_loop_out:
  "accept_loop E out_dir verify s out cls =
     (fst (accept_loop E out_dir verify s [] cls),
      out @ snd (accept_loop E out_dir verify s [] cls))"
proof (induction cls arbitrary: s out)
  case Nil
  show ?case by simp
next
  case (Cons cl cls)
  obtain r s' printed where h: "handle_connection E out_dir verify s cl = (r, s', printed)"
    by (cases "handle_connection E out_dir verify s cl")
  show ?case
  proof (cases r)
    case None
    with h Cons [of s' "out @ PrintConnected # printed @ [CloseClient]"]
      Cons [of s' "[] @ PrintConnected # printed @ [CloseClient]"]
    show ?thesis by simp
  next
    case (Some e)
    with h Cons [of s' "out @ PrintConnected # printed @ [PrintError e, CloseClient]"]
      Cons [of s' "[] @ PrintConnected # printed @ [PrintError e, CloseClient]"]
    show ?thesis by simp
  qed
qed

lemma accept_loop_append:
  "accept_loop E out_dir verify s out (xs @ ys) =
     (case accept_loop E out_dir verify s out xs of
        (s', out') \<Rightarrow> accept_loop E out_dir verify s' out' ys)"
proof (induction xs arbitrary: s out)
  case Nil
  show ?case by simp
next
  case (Cons cl cls)
  obtain r s' printed where h: "handle_connection E out_dir verify s cl = (r, s', printed)"
    by (cases "handle_connection E out_dir verify s cl")
  show ?case
    using h Cons by (cases r) simp_all
qed

lemma accept_loop_counts:
  "length (filter (\<lambda>a. a = PrintConnected) (snd (accept_loop E out_dir verify s [] cls)))
     = length cls \<and>
   length (filter (\<lambda>a. a = CloseClient) (snd (accept_loop E out_dir verify s [] cls)))
     = length cls"
proof (induction cls arbitrary: s)
  case Nil
  show ?case by simp
next
  case (Cons cl cls)
  obtain r s' printed where h: "handle_connection E out_dir verify s cl = (r, s', printed)"
    by (cases "handle_connection E out_dir verify s cl")
  from handle_connection_printed [OF h]
  have p: "filter (\<lambda>a. a = PrintConnected) printed = []"
    "filter (\<lambda>a. a = CloseClient) printed = []"
    by (auto simp: filter_empty_conv)
  show ?case
  proof (cases r)
    case None
    with h p Cons [of s'] show ?thesis
      by (simp add: accept_loop_out [of E out_dir verify s' "PrintConnected # printed @ [CloseClient]" cls])
  next
    case (Some e)
    with h p Cons [of s'] show ?thesis
      by (simp add: accept_loop_out [of E out_dir verify s' "PrintConnected # printed @ [PrintError e, CloseClient]" cls])
  qed
qed

text \<open>
  Claim C8. Once \<open>receive_files\<close> is listening, an exception \<open>e\<close> raised while a
  client is handled, the TLS handshake included, does not end it: after the clients
  \<open>before\<close>, the failing client is accepted, \<open>e\<close> is printed by the handler
  \<open>except Exception\<close>, the client socket is closed by \<open>finally\<close>, and the loop goes
  on with the clients \<open>rest\<close> from the disk the failing client left, each of them accepted
  and closed in turn; \<open>receive_files\<close> itself has raised nothing.
\<close>

theorem receive_files_contains_errors:
  assumes "mkdir_parents s0 out_dir = Inr s"
    and "create_server_context E = None"
    and "create_server E = None"
    and "accept_loop E out_dir verify s [PrintListening] before = (s1, out1)"
    and "handle_connection E out_dir verify s1 cl = (Some e, s2, printed)"
  shows "\<exists>s3 more.
     receive_files E out_dir verify s0 (before @ cl # rest) =
       (None, s3, out1 @ PrintConnected # printed @ [PrintError e, CloseClient] @ more) \<and>
     accept_loop E out_dir verify s2 [] rest = (s3, more) \<and>
     length (filter (\<lambda>a. a = PrintConnected) more) = length rest \<and>
     length (filter (\<lambda>a. a = CloseClient) more) = length rest"
proof -
  obtain s3 more where r: "accept_loop E out_dir verify s2 [] rest = (s3, more)"
    by (cases "accept_loop E out_dir verify s2 [] rest")
  from accept_loop_counts [of E out_dir verify s2 rest] r
  have c: "length (filter (\<lambda>a. a = PrintConnected) more) = length rest"
    "length (filter (\<lambda>a. a = CloseClient) more) = length rest"
    by simp_all
  have "accept_loop E out_dir verify s [PrintListening] (before @ cl # rest) =
      accept_loop E out_dir verify s2
        (out1 @ PrintConnected # printed @ [PrintError e, CloseClient]) rest"
    using assms(4,5) by (simp add: accept_loop_append)
  also have "\<dots> = (s3, (out1 @ PrintConnected # printed @ [PrintError e, CloseClient]) @ more)"
    using r accept_loop_out [of E out_dir verify s2
        "out1 @ PrintConnected # printed @ [PrintError e, CloseClient]" rest]
    by simp
  finally have "receive_files E out_dir verify s0 (before @ cl # rest) =
      (None, s3, out1 @ PrintConnected # printed @ [PrintError e, CloseClient] @ more)"
    using assms(1,2,3) by (simp add: receive_files_def)
  with r c show ?thesis
    by blast
qed


theorem receive_files_contains_errors_witness:
  "fst (receive_files demo_env (Path False [ascii ''out'']) False demo_disk
          [\<lparr>handshake = Some SSLError, stream = []\<rparr>, \<lparr>handshake = None, stream = []\<rparr>])
     = None \<and>
   snd (snd (receive_files demo_env (Path False [ascii ''out'']) False demo_disk
          [\<lparr>handshake = Some SSLError, stream = []\<rparr>, \<lparr>handshake = None, stream = []\<rparr>]))
     = [PrintListening, PrintConnected, PrintError SSLError, CloseClient,
        PrintConnected, PrintError ConnectionError, CloseClient]"
proof -
  let ?out = "Path False [ascii ''out'']"
  let ?bad = "\<lparr>handshake = Some SSLError, stream = []\<rparr>"
  let ?closed = "\<lparr>handshake = None, stream = []\<rparr>"
  have d: "?out \<in> dirs demo_disk" and f: "faults demo_disk ?out = None"
    by (simp_all add: demo_disk_def)
  have n: "\<not> has_nul ?out"
    by (simp add: has_nul_def ascii_def)
  have mk: "mkdir_parents demo_disk ?out = Inr demo_disk"
    using d f n by (simp add: mkdir_parents_def)
  have e1: "create_server_context demo_env = None" and e2: "create_server demo_env = None"
    by (simp_all add: demo_env_def)
  have b: "accept_loop demo_env ?out False demo_disk [PrintListening] [] =
      (demo_disk, [PrintListening])"
    by simp
  have h1: "handle_connection demo_env ?out False demo_disk ?bad =
      (Some SSLError, demo_disk, [])"
    by (simp add: handle_connection_def)
  have h2: "handle_connection demo_env ?out False demo_disk ?closed =
      (Some ConnectionError, demo_disk, [])"
    by (simp add: handle_connection_def recv_all_def recv_all_loop.simps [of "[]" "Suc 0" "[]"])
  from receive_files_contains_errors [OF mk e1 e2 b h1, of "[?closed]"] h2
  show ?thesis
    by auto
qed

section \<open>What the receiver does with a well-formed stream\<close>

text \<open>
  \<open>struct.unpack\<close> inverts \<open>struct.pack\<close>, and the fields written by
  \<open>struct.pack\<close> are the bytes of the number, most significant first.
\<close>

lemma length_be_bytes: "length (be_bytes k n) = k"
  by (induction k arbitrary: n) simp_all

lemma be_nat_snoc: "be_nat (bs @ [b]) = be_nat bs * 256 + unat b"
  by (simp add: be_nat_def)

lemma unat_byte_of_nat: "unat (of_nat (n mod 256) :: byte) = n mod 256"
  by (simp add: unsigned_of_nat take_bit_eq_mod)

lemma be_nat_be_bytes: "n < 256 ^ k \<Longrightarrow> be_nat (be_bytes k n) = n"
proof (induction k arbitrary: n)
  case 0
  then show ?case by (simp add: be_nat_def)
next
  case (Suc k)
  from Suc.prems have "n div 256 < 256 ^ k"
    by (simp add: less_mult_imp_div_less mult.commute)
  from Suc.IH [OF this] show ?case
    by (simp add: be_nat_snoc unat_byte_of_nat)
qed

lemma struct_unpack_pack: "n < 256 ^ k \<Longrightarrow> struct_unpack k (be_bytes k n) = Inr n"
  by (simp add: struct_unpack_def length_be_bytes be_nat_be_bytes)

lemma recv_all_prefix:
  assumes "faultless c" and "pending c = xs @ rest"
  shows "\<exists>c'. recv_all c (length xs) = (Inr xs, c') \<and> faultless c' \<and> pending c' = rest"
  using recv_all_faultless_ok [OF assms(1), of "length xs"] assms(2)
  by simp

lemma recv_header_ok:
  assumes "faultless c"
    and "pending c = be_bytes 4 (length nb) @ nb @ be_bytes 8 n @ rest"
    and "length nb < 256 ^ 4" and "n < 256 ^ 8"
  shows "\<exists>c3. recv_header c = (Inr (utf8_decode_replace nb, n), c3) \<and>
               faultless c3 \<and> pending c3 = rest"
proof -
  from recv_all_prefix [OF assms(1), of "be_bytes 4 (length nb)" "nb @ be_bytes 8 n @ rest"]
    assms(2)
  obtain c1 where 1: "recv_all c 4 = (Inr (be_bytes 4 (length nb)), c1)" "faultless c1"
    "pending c1 = nb @ be_bytes 8 n @ rest"
    by (auto simp: length_be_bytes)
  from recv_all_prefix [OF 1(2), of nb "be_bytes 8 n @ rest"] 1(3)
  obtain c2 where 2: "recv_all c1 (length nb) = (Inr nb, c2)" "faultless c2"
    "pending c2 = be_bytes 8 n @ rest"
    by auto
  from recv_all_prefix [OF 2(2), of "be_bytes 8 n" rest] 2(3)
  obtain c3 where 3: "recv_all c2 8 = (Inr (be_bytes 8 n), c3)" "faultless c3"
    "pending c3 = rest"
    by (auto simp: length_be_bytes)
  have "recv_header c = (Inr (utf8_decode_replace nb, n), c3)"
    using 1(1) 2(1) 3(1) struct_unpack_pack [OF assms(3)] struct_unpack_pack [OF assms(4)]
    by (simp add: recv_header_def)
  with 3 show ?thesis
    by blast
qed

text \<open>
  One frame on a stream without faults: the header is read back, the content is written to
  the file that was opened, and the rest of the stream is left for what follows.
\<close>

lemma unpack_B_byte: "struct_unpack (Suc 0) [b] = Inr (unat b)"
  by (simp add: struct_unpack_def be_nat_def)

lemma recv_all_first_byte:
  assumes "faultless c" and "pending c = b # rest"
  shows "\<exists>c'. recv_all c (Suc 0) = (Inr [b], c') \<and> faultless c' \<and> pending c' = rest"
  using recv_all_prefix [OF assms(1), of "[b]" rest] assms(2) by simp


lemma write_chunk_files:
  "files (write_chunk s p chunk) p = Some ((case files s p of None \<Rightarrow> [] | Some old \<Rightarrow> old) @ chunk)
   \<and> dirs (write_chunk s p chunk) = dirs s \<and> faults (write_chunk s p chunk) = faults s"
  by (simp add: write_chunk_def split: option.splits)





lemma handle_connection_not_opened:
  assumes "faultless c"
    and "pending c = b # be_bytes 4 (length nb) @ nb @ be_bytes 8 n @ rest"
    and "length nb < 256 ^ 4" and "n < 256 ^ 8"
    and "fp = joinpath out_dir (utf8_decode_replace nb)"
  shows "handle_connection E out_dir verify s \<lparr>handshake = None, stream = c\<rparr> =
       (case mkdir_parents s (parent fp) of
          Inl e \<Rightarrow> (Some e, s, [])
        | Inr s1 \<Rightarrow>
            (case open_wb s1 fp of
               Inl e \<Rightarrow> (Some e, s1, [])
             | Inr s2 \<Rightarrow> handle_connection E out_dir verify s \<lparr>handshake = None, stream = c\<rparr>))"
proof -
  from recv_all_first_byte [OF assms(1,2)]
  obtain c1 where f: "recv_all c (Suc 0) = (Inr [b], c1)" "faultless c1"
    "pending c1 = be_bytes 4 (length nb) @ nb @ be_bytes 8 n @ rest"
    by blast
  from recv_header_ok [OF f(2,3) assms(3,4)]
  obtain c2 where h: "recv_header c1 = (Inr (utf8_decode_replace nb, n), c2)"
    by blast
  show ?thesis
  proof (cases "mkdir_parents s (parent fp)")
    case (Inl e)
    with f(1) h assms(5) [symmetric] show ?thesis
      by (simp add: handle_connection_def unpack_B_byte)
  next
    case mk: (Inr s1)
    show ?thesis
    proof (cases "open_wb s1 fp")
      case (Inl e)
      with mk f(1) h assms(5) [symmetric] show ?thesis
        by (simp add: handle_connection_def unpack_B_byte)
    next
      case (Inr s2)
      with mk show ?thesis
        by simp
    qed
  qed
qed



lemma byte_of_nat_mod: "(of_nat (n mod 256) :: byte) = of_nat n"
  by (simp add: word_of_nat_eq_iff take_bit_eq_mod)

lemma be_bytes_4:
  "be_bytes 4 n = [of_nat (n div 16777216), of_nat (n div 65536), of_nat (n div 256), of_nat n]"
proof -
  have four: "(4::nat) = Suc (Suc (Suc (Suc 0)))"
    by simp
  show ?thesis
    unfolding four by (simp add: byte_of_nat_mod div_mult2_eq [symmetric])
qed

lemma be_bytes_8:
  "be_bytes 8 n =
     [of_nat (n div 72057594037927936), of_nat (n div 281474976710656),
      of_nat (n div 1099511627776), of_nat (n div 4294967296),
      of_nat (n div 16777216), of_nat (n div 65536), of_nat (n div 256), of_nat n]"
proof -
  have eight: "(8::nat) = Suc (Suc (Suc (Suc (Suc (Suc (Suc (Suc 0)))))))"
    by simp
  show ?thesis
    unfolding eight by (simp add: byte_of_nat_mod div_mult2_eq [symmetric])
qed

lemma be_bytes_5: "be_bytes 4 5 = [0, 0, 0, 5]" and be_bytes_2: "be_bytes 8 2 = [0, 0, 0, 0, 0, 0, 0, 2]"
  and be_bytes_9: "be_bytes 4 9 = [0, 0, 0, 9]" and be_bytes_3: "be_bytes 8 3 = [0, 0, 0, 0, 0, 0, 0, 3]"
  by (simp_all add: be_bytes_4 be_bytes_8)

lemma demo_out: "Path False [ascii ''out''] \<in> dirs demo_disk"
  "faults demo_disk p = None"
  "dirs demo_disk = {Path False [ascii ''out'']}"
  by (simp_all add: demo_disk_def)









section \<open>The flag byte\<close>







section \<open>What the sender writes\<close>








end
